theory Spec2Isabelle
  imports Main "HOL-Library.Word" "HOL-Library.Multiset"
begin

section \<open>The low memory killer of drivers/staging/android/lowmemorykiller.c\<close>

text \<open>
  The driver targets the 32-bit msm7x27: \<open>int\<close>, \<open>long\<close> and \<open>unsigned long\<close> are
  32 bits wide. Page counts are 32-bit words: \<open>+\<close> and \<open>-\<close> wrap as the C arithmetic
  does, and a comparison of two \<open>int\<close> variables is the signed one (\<open><s\<close>, \<open>\<le>s\<close>).
  The oom_adj values are only assigned and compared, never computed with, so they are
  mathematical integers.
\<close>

type_synonym pages = "32 word"

subsection \<open>Tasks\<close>

datatype pf = PF_EXITING | PF_KTHREAD

datatype tif = TIF_MEMDIE | TIF_MM_RELEASED

record mm_struct =
  get_mm_rss :: pages

text \<open>One \<open>struct task_struct\<close>: a thread. \<open>mm\<close> is \<open>None\<close> for a NULL \<open>->mm\<close>.\<close>

record task_struct =
  pid :: nat
  tgid :: nat
  flags :: "pf set"
  thread_flags :: "tif set"
  mm :: "mm_struct option"
  fatal_signal_pending :: bool

text \<open>
  A task as the driver sees it through a pointer \<open>p\<close>: the thread itself, the other
  threads of its thread group in the order \<open>while_each_thread(p, t)\<close> visits them, and
  \<open>p->signal->oom_adj\<close>, which the whole thread group shares.
\<close>

record task =
  self :: task_struct
  siblings :: "task_struct list"
  oom_adj :: int

definition each_thread :: "task \<Rightarrow> task_struct list" where
  "each_thread p = self p # siblings p"

text \<open>\<open>do { ... } while_each_thread(p, t)\<close> of \<open>test_task_flag\<close>: 1 at the first thread
  that carries the flag, 0 when the walk is back at \<open>p\<close>.\<close>

fun test_task_flag_loop :: "task_struct list \<Rightarrow> tif \<Rightarrow> bool" where
  "test_task_flag_loop [] flag = False"
| "test_task_flag_loop (t # ts) flag =
     (if flag \<in> thread_flags t then True else test_task_flag_loop ts flag)"

definition test_task_flag :: "task \<Rightarrow> tif \<Rightarrow> bool" where
  "test_task_flag p flag = test_task_flag_loop (each_thread p) flag"

text \<open>\<open>find_lock_task_mm\<close>: \<open>p\<close> or the first of its subthreads with a valid \<open>->mm\<close>,
  NULL when there is none.\<close>

fun find_lock_task_mm_loop :: "task_struct list \<Rightarrow> task_struct option" where
  "find_lock_task_mm_loop [] = None"
| "find_lock_task_mm_loop (t # ts) =
     (if mm t \<noteq> None then Some t else find_lock_task_mm_loop ts)"

definition find_lock_task_mm :: "task \<Rightarrow> task_struct option" where
  "find_lock_task_mm p = find_lock_task_mm_loop (each_thread p)"

definition same_thread_group :: "task_struct \<Rightarrow> task \<Rightarrow> bool" where
  "same_thread_group c tsk = (tgid c = tgid (self tsk))"

subsection \<open>The tree of tasks ordered by oom_adj\<close>

datatype rb_node = RB_NULL | RB_NODE (rb_left: rb_node) (rb_entry: task) (rb_right: rb_node)

fun inorder :: "rb_node \<Rightarrow> task list" where
  "inorder RB_NULL = []"
| "inorder (RB_NODE l e r) = inorder l @ e # inorder r"

text \<open>
  The descent of \<open>add_2_adj_tree\<close> with \<open>rb_link_node\<close> at the empty link it ends on:
  a key smaller than the entry's goes to the right, any other key to the left.
\<close>

fun rb_link_node :: "task \<Rightarrow> rb_node \<Rightarrow> rb_node" where
  "rb_link_node tsk RB_NULL = RB_NODE RB_NULL tsk RB_NULL"
| "rb_link_node tsk (RB_NODE l e r) =
     (if oom_adj tsk < oom_adj e then RB_NODE l e (rb_link_node tsk r)
      else RB_NODE (rb_link_node tsk l) e r)"

text \<open>
  \<open>rb_insert_color\<close> is the rebalancing of lib/rbtree.c, which is not part of the
  driver's file: it is a parameter of \<open>add_2_adj_tree\<close>.
\<close>

definition add_2_adj_tree :: "(rb_node \<Rightarrow> rb_node) \<Rightarrow> task \<Rightarrow> rb_node \<Rightarrow> rb_node" where
  "add_2_adj_tree rb_insert_color tsk tasksadj = rb_insert_color (rb_link_node tsk tasksadj)"

text \<open>The order the tree keeps: along the in-order walk oom_adj never increases.\<close>

definition adj_ordered :: "rb_node \<Rightarrow> bool" where
  "adj_ordered t = sorted_wrt (\<lambda>a b. oom_adj b \<le> oom_adj a) (inorder t)"

subsection \<open>What the driver reads from the rest of the kernel\<close>

datatype zone_stat_item =
  NR_FREE_PAGES | NR_FILE_PAGES | NR_SHMEM
  | NR_ACTIVE_ANON | NR_ACTIVE_FILE | NR_INACTIVE_ANON | NR_INACTIVE_FILE

record zone =
  zone_idx :: nat
  zone_page_state :: "zone_stat_item \<Rightarrow> pages"
  lowmem_reserve :: "nat \<Rightarrow> pages"
  present_pages :: pages
  low_wmark_pages :: pages
  high_wmark_pages :: pages

type_synonym gfp_t = "32 word"

text \<open>
  The constants and functions of the kernel headers and of mm/ that the driver uses
  and its file does not define are fields of this record (\<open>LMK_ZONE\<close> is the
  driver's macro \<open>_ZONE\<close>, whose value depends on \<open>CONFIG_HIGHMEM\<close>), with the
  state of the calling context: \<open>current\<close>, \<open>current->group_leader\<close> with its
  thread group, \<open>jiffies\<close>, and whether \<open>mutex_lock_interruptible(&scan_mutex)\<close> is
  interrupted (returns a negative value) when it is called.
\<close>

record kernel =
  HZ :: "32 word"
  SWAP_CLUSTER_MAX :: pages
  ZONE_MOVABLE :: nat
  LMK_ZONE :: nat
  node_zonelist :: "gfp_t \<Rightarrow> zone list"
  gfp_zone :: "gfp_t \<Rightarrow> nat"
  first_zones_zonelist :: "zone list \<Rightarrow> nat \<Rightarrow> zone"
  zone_watermark_ok :: "zone \<Rightarrow> nat \<Rightarrow> pages \<Rightarrow> nat \<Rightarrow> nat \<Rightarrow> bool"
  global_page_state :: "zone_stat_item \<Rightarrow> pages"
  current_is_kswapd :: bool
  current :: task_struct
  group_leader :: task
  jiffies :: "32 word"
  mutex_lock_interrupted :: bool

definition KSWAPD_ZONE_BALANCE_GAP_RATIO :: pages where
  "KSWAPD_ZONE_BALANCE_GAP_RATIO = 100"

definition OOM_SCORE_ADJ_MAX :: int where
  "OOM_SCORE_ADJ_MAX = 1000"

text \<open>\<open>time_before_eq(a, b)\<close> of linux/jiffies.h is \<open>(long)(b) - (long)(a) >= 0\<close>.\<close>

definition time_before_eq :: "32 word \<Rightarrow> 32 word \<Rightarrow> bool" where
  "time_before_eq a b = (0 \<le>s b - a)"

subsection \<open>The module's variables\<close>

record lmk =
  lowmem_adj :: "int list"
  lowmem_adj_size :: int
  lowmem_minfree :: "pages list"
  lowmem_minfree_size :: int
  lmk_fast_run :: int
  lowmem_deathpending_timeout :: "32 word"
  tasksadj :: rb_node

text \<open>The static initialisers: both arrays have six slots, the rest of an array is 0.\<close>

definition lmk_init :: lmk where
  "lmk_init =
     \<lparr>lowmem_adj = [0, 1, 6, 12, 15, 0], lowmem_adj_size = 4,
      lowmem_minfree = [3 * 512, 2 * 1024, 4 * 1024, 16 * 1024, 0, 0], lowmem_minfree_size = 4,
      lmk_fast_run = 1, lowmem_deathpending_timeout = 0, tasksadj = RB_NULL\<rparr>"

subsection \<open>tune_lmk_zone_param and tune_lmk_param\<close>

text \<open>
  \<open>for_each_zone_zonelist(zone, zoneref, zonelist, MAX_NR_ZONES)\<close> visits every zone
  of the zonelist. Both callers pass the address of a variable for \<open>other_free\<close>,
  and the branch for a lower zone dereferences it without a test: the model takes the
  variable's value, and the test \<open>other_free != NULL\<close> of the branch for a higher
  zone always succeeds. \<open>other_file\<close> may be NULL: \<open>None\<close>. The function returns the
  two variables as it leaves them.
\<close>

fun tune_lmk_zone_param ::
  "kernel \<Rightarrow> zone list \<Rightarrow> nat \<Rightarrow> pages \<Rightarrow> pages option \<Rightarrow> pages \<times> pages option" where
  "tune_lmk_zone_param K [] classzone_idx other_free other_file = (other_free, other_file)"
| "tune_lmk_zone_param K (z # zonelist) classzone_idx other_free other_file =
     (if zone_idx z = ZONE_MOVABLE K then
        tune_lmk_zone_param K zonelist classzone_idx other_free other_file
      else if zone_idx z > classzone_idx then
        tune_lmk_zone_param K zonelist classzone_idx
          (other_free - zone_page_state z NR_FREE_PAGES)
          (case other_file of
             None \<Rightarrow> None
           | Some file \<Rightarrow>
               Some (file - (zone_page_state z NR_FILE_PAGES - zone_page_state z NR_SHMEM)))
      else if zone_idx z < classzone_idx then
        (if zone_watermark_ok K z 0 0 classzone_idx 0 then
           tune_lmk_zone_param K zonelist classzone_idx
             (other_free - lowmem_reserve z classzone_idx) other_file
         else
           tune_lmk_zone_param K zonelist classzone_idx
             (other_free - zone_page_state z NR_FREE_PAGES) other_file)
      else tune_lmk_zone_param K zonelist classzone_idx other_free other_file)"

definition tune_lmk_param :: "kernel \<Rightarrow> int \<Rightarrow> pages \<Rightarrow> pages \<Rightarrow> gfp_t \<Rightarrow> pages \<times> pages" where
  "tune_lmk_param K fast_run other_free other_file gfp_mask =
     (let zonelist = node_zonelist K gfp_mask;
          high_zoneidx = gfp_zone K gfp_mask;
          preferred_zone = first_zones_zonelist K zonelist high_zoneidx;
          classzone_idx = zone_idx preferred_zone;
          balance_gap = min (low_wmark_pages preferred_zone)
                            ((present_pages preferred_zone + KSWAPD_ZONE_BALANCE_GAP_RATIO - 1)
                               div KSWAPD_ZONE_BALANCE_GAP_RATIO)
      in
        if current_is_kswapd K \<and>
           zone_watermark_ok K preferred_zone 0
             (high_wmark_pages preferred_zone + SWAP_CLUSTER_MAX K + balance_gap) 0 0
        then
          (let (free, file) =
                 (if fast_run \<noteq> 0 then
                    (case tune_lmk_zone_param K zonelist classzone_idx other_free (Some other_file) of
                       (free, Some file) \<Rightarrow> (free, file)
                     | (free, None) \<Rightarrow> (free, other_file))
                  else
                    (fst (tune_lmk_zone_param K zonelist classzone_idx other_free None),
                     other_file))
           in
             if zone_watermark_ok K preferred_zone 0 0 (LMK_ZONE K) 0 then
               (free - lowmem_reserve preferred_zone (LMK_ZONE K), file)
             else (free - zone_page_state preferred_zone NR_FREE_PAGES, file))
        else
          (case tune_lmk_zone_param K zonelist classzone_idx other_free (Some other_file) of
             (free, Some file) \<Rightarrow> (free, file)
           | (free, None) \<Rightarrow> (free, other_file)))"

subsection \<open>The threshold loop of lowmem_shrink\<close>

text \<open>\<open>for (i = 0; i < array_size; i++)\<close>, leaving at the first row that both figures
  are below; \<open>min_adj\<close> keeps its value when no row is.\<close>

function minfree_loop :: "lmk \<Rightarrow> pages \<Rightarrow> pages \<Rightarrow> int \<Rightarrow> int \<Rightarrow> int \<Rightarrow> int" where
  "minfree_loop L other_free other_file array_size i min_adj =
     (if i < array_size then
        (if other_free <s lowmem_minfree L ! nat i \<and> other_file <s lowmem_minfree L ! nat i
         then lowmem_adj L ! nat i
         else minfree_loop L other_free other_file array_size (i + 1) min_adj)
      else min_adj)"
  by pat_completeness auto
termination
  by (relation "measure (\<lambda>(L, other_free, other_file, array_size, i, min_adj). nat (array_size - i))")
     auto

declare minfree_loop.simps [simp del]

definition lowmem_array_size :: "lmk \<Rightarrow> int" where
  "lowmem_array_size L =
     (let array_size = int (length (lowmem_adj L));
          array_size = (if lowmem_adj_size L < array_size then lowmem_adj_size L else array_size);
          array_size = (if lowmem_minfree_size L < array_size then lowmem_minfree_size L
                        else array_size)
      in array_size)"

definition lowmem_min_adj :: "lmk \<Rightarrow> pages \<Rightarrow> pages \<Rightarrow> int" where
  "lowmem_min_adj L other_free other_file =
     minfree_loop L other_free other_file (lowmem_array_size L) 0 (OOM_SCORE_ADJ_MAX + 1)"

subsection \<open>The scan of lowmem_shrink\<close>

record scan_state =
  selected :: "task_struct option"
  selected_tasksize :: pages
  selected_oom_adj :: int

text \<open>How one run of the loop body ends: \<open>continue\<close> (or falling off its end),
  \<open>break\<close>, or the \<open>return 0\<close> on a task whose death is pending.\<close>

datatype loop_ctl = Continue scan_state | Break scan_state | Return_0 task

text \<open>
  The body of the \<open>for\<close> loop for the node \<open>tsk\<close>. \<open>jiffies\<close> is read once per
  call. \<open>find_lock_task_mm\<close> only returns a thread with a valid \<open>->mm\<close>, so the
  \<open>None\<close> case of \<open>get_mm_rss(p->mm)\<close> is never taken.
\<close>

definition scan_body :: "kernel \<Rightarrow> lmk \<Rightarrow> int \<Rightarrow> scan_state \<Rightarrow> task \<Rightarrow> loop_ctl" where
  "scan_body K L min_adj st tsk =
     (if PF_KTHREAD \<in> flags (self tsk) then Continue st
      else if test_task_flag tsk TIF_MM_RELEASED then Continue st
      else if time_before_eq (jiffies K) (lowmem_deathpending_timeout L) \<and>
              test_task_flag tsk TIF_MEMDIE then Return_0 tsk
      else
        (case find_lock_task_mm tsk of
           None \<Rightarrow> Continue st
         | Some p \<Rightarrow>
             (if oom_adj tsk < min_adj then Break st
              else if fatal_signal_pending p \<or>
                      (PF_EXITING \<in> flags p \<and> TIF_MEMDIE \<in> thread_flags p) then Continue st
              else
                (case mm p of
                   None \<Rightarrow> Continue st
                 | Some m \<Rightarrow>
                     (let tasksize = get_mm_rss m in
                        if tasksize \<le>s 0 then Continue st
                        else if selected st \<noteq> None \<and> oom_adj tsk < selected_oom_adj st
                        then Break st
                        else if selected st \<noteq> None \<and> oom_adj tsk = selected_oom_adj st \<and>
                                tasksize \<le>s selected_tasksize st
                        then Continue st
                        else Continue \<lparr>selected = Some p, selected_tasksize = tasksize,
                                        selected_oom_adj = oom_adj tsk\<rparr>)))))"

datatype loop_exit = Scanned scan_state | Deathpending task

text \<open>
  \<open>for (tsk = pick_first_task(); tsk != pick_last_task(); tsk = pick_next_from_adj_tree(tsk))\<close>
  on the in-order sequence of the tree from the cursor on: \<open>rb_first\<close> is its first
  node, \<open>rb_next\<close> the following one, \<open>rb_last\<close> its last. On the empty tree both
  ends are NULL; on the last node the cursor equals \<open>pick_last_task()\<close>: in both cases
  the loop is over, and the body has not run for the last node.
\<close>

fun scan_loop :: "kernel \<Rightarrow> lmk \<Rightarrow> int \<Rightarrow> scan_state \<Rightarrow> task list \<Rightarrow> loop_exit" where
  "scan_loop K L min_adj st [] = Scanned st"
| "scan_loop K L min_adj st [tsk] = Scanned st"
| "scan_loop K L min_adj st (tsk # nxt # rest) =
     (case scan_body K L min_adj st tsk of
        Continue st' \<Rightarrow> scan_loop K L min_adj st' (nxt # rest)
      | Break st' \<Rightarrow> Scanned st'
      | Return_0 t \<Rightarrow> Deathpending t)"

subsection \<open>lowmem_shrink\<close>

text \<open>What a call does to the rest of the system, in the order it does it.\<close>

datatype event =
  MutexLock | MutexUnlock | RcuReadLock | RcuReadUnlock
  | SetMemdie nat | SendSigkill nat | Msleep nat

record result =
  retval :: pages
  trace :: "event list"
  deathpending_timeout :: "32 word"

text \<open>The test on \<open>current->group_leader\<close> that opens the function.\<close>

definition current_is_dying :: "kernel \<Rightarrow> bool" where
  "current_is_dying K =
     (PF_EXITING \<in> flags (self (group_leader K)) \<and> test_task_flag (group_leader K) TIF_MEMDIE)"

text \<open>\<open>other_free\<close> and \<open>other_file\<close> after \<open>tune_lmk_param\<close>, and the \<open>min_adj\<close>
  that the threshold loop leaves.\<close>

definition shrink_estimate :: "kernel \<Rightarrow> lmk \<Rightarrow> gfp_t \<Rightarrow> pages \<times> pages" where
  "shrink_estimate K L gfp_mask =
     (let other_free = global_page_state K NR_FREE_PAGES;
          other_file = global_page_state K NR_FILE_PAGES - global_page_state K NR_SHMEM
      in tune_lmk_param K (lmk_fast_run L) other_free other_file gfp_mask)"

definition shrink_min_adj :: "kernel \<Rightarrow> lmk \<Rightarrow> gfp_t \<Rightarrow> int" where
  "shrink_min_adj K L gfp_mask =
     (let (other_free, other_file) = shrink_estimate K L gfp_mask
      in lowmem_min_adj L other_free other_file)"

definition shrink_rem :: "kernel \<Rightarrow> pages" where
  "shrink_rem K =
     global_page_state K NR_ACTIVE_ANON + global_page_state K NR_ACTIVE_FILE +
     global_page_state K NR_INACTIVE_ANON + global_page_state K NR_INACTIVE_FILE"

definition lowmem_shrink :: "kernel \<Rightarrow> lmk \<Rightarrow> int \<Rightarrow> gfp_t \<Rightarrow> result" where
  "lowmem_shrink K L nr_to_scan gfp_mask =
     (if current_is_dying K
      then \<lparr>retval = 0, trace = [SetMemdie (pid (current K))],
            deathpending_timeout = lowmem_deathpending_timeout L\<rparr>
      else if nr_to_scan > 0 \<and> mutex_lock_interrupted K
      then \<lparr>retval = 0, trace = [], deathpending_timeout = lowmem_deathpending_timeout L\<rparr>
      else
        (let locked = (if nr_to_scan > 0 then [MutexLock] else []);
             min_adj = shrink_min_adj K L gfp_mask;
             rem = shrink_rem K
         in
           if nr_to_scan \<le> 0 \<or> min_adj = OOM_SCORE_ADJ_MAX + 1 then
             \<lparr>retval = rem,
              trace = locked @ (if nr_to_scan > 0 then [MutexUnlock] else []),
              deathpending_timeout = lowmem_deathpending_timeout L\<rparr>
           else
             (case scan_loop K L min_adj
                     \<lparr>selected = None, selected_tasksize = 0, selected_oom_adj = min_adj\<rparr>
                     (inorder (tasksadj L)) of
                Deathpending tsk \<Rightarrow>
                  \<lparr>retval = 0,
                   trace = locked @ [RcuReadLock, RcuReadUnlock] @
                           (if \<not> same_thread_group (current K) tsk then [Msleep 20]
                            else [SetMemdie (pid (current K))]) @
                           [MutexUnlock],
                   deathpending_timeout = lowmem_deathpending_timeout L\<rparr>
              | Scanned st \<Rightarrow>
                  (case selected st of
                     Some p \<Rightarrow>
                       \<lparr>retval = rem - selected_tasksize st,
                        trace = locked @ [RcuReadLock, SendSigkill (pid p), SetMemdie (pid p),
                                          RcuReadUnlock, Msleep 20, MutexUnlock],
                        deathpending_timeout = jiffies K + HZ K\<rparr>
                   | None \<Rightarrow>
                       \<lparr>retval = rem,
                        trace = locked @ [RcuReadLock, RcuReadUnlock, MutexUnlock],
                        deathpending_timeout = lowmem_deathpending_timeout L\<rparr>))))"

subsection \<open>The specification's reading of the threshold table\<close>

text \<open>Row \<open>i\<close> is crossed when both figures are below \<open>minfree_levels[i]\<close>.\<close>

definition row_crossed :: "lmk \<Rightarrow> pages \<Rightarrow> pages \<Rightarrow> nat \<Rightarrow> bool" where
  "row_crossed L free_pages reclaimable_file_pages i =
     (free_pages <s lowmem_minfree L ! i \<and> reclaimable_file_pages <s lowmem_minfree L ! i)"

subsection \<open>The specification's reading of the memory estimate\<close>

text \<open>What one zone takes off the free figure and off the file figure, for a request
  whose zone is \<open>classzone_idx\<close>; a movable zone takes nothing.\<close>

definition zone_free_share :: "kernel \<Rightarrow> nat \<Rightarrow> zone \<Rightarrow> pages" where
  "zone_free_share K classzone_idx z =
     (if zone_idx z = ZONE_MOVABLE K then 0
      else if classzone_idx < zone_idx z then zone_page_state z NR_FREE_PAGES
      else if zone_idx z < classzone_idx then
        (if zone_watermark_ok K z 0 0 classzone_idx 0 then lowmem_reserve z classzone_idx
         else zone_page_state z NR_FREE_PAGES)
      else 0)"

definition zone_file_share :: "kernel \<Rightarrow> nat \<Rightarrow> zone \<Rightarrow> pages" where
  "zone_file_share K classzone_idx z =
     (if zone_idx z \<noteq> ZONE_MOVABLE K \<and> classzone_idx < zone_idx z
      then zone_page_state z NR_FILE_PAGES - zone_page_state z NR_SHMEM
      else 0)"

definition preferred_zone_of :: "kernel \<Rightarrow> gfp_t \<Rightarrow> zone" where
  "preferred_zone_of K gfp_mask =
     first_zones_zonelist K (node_zonelist K gfp_mask) (gfp_zone K gfp_mask)"

text \<open>The caller is kswapd and the preferred zone is above its high watermark plus
  \<open>SWAP_CLUSTER_MAX\<close> plus the balance gap.\<close>

definition kswapd_balanced :: "kernel \<Rightarrow> gfp_t \<Rightarrow> bool" where
  "kswapd_balanced K gfp_mask =
     (let z = preferred_zone_of K gfp_mask in
        current_is_kswapd K \<and>
        zone_watermark_ok K z 0
          (high_wmark_pages z + SWAP_CLUSTER_MAX K +
           min (low_wmark_pages z)
               ((present_pages z + KSWAPD_ZONE_BALANCE_GAP_RATIO - 1)
                  div KSWAPD_ZONE_BALANCE_GAP_RATIO)) 0 0)"

definition preferred_zone_share :: "kernel \<Rightarrow> gfp_t \<Rightarrow> pages" where
  "preferred_zone_share K gfp_mask =
     (let z = preferred_zone_of K gfp_mask in
        if zone_watermark_ok K z 0 0 (LMK_ZONE K) 0 then lowmem_reserve z (LMK_ZONE K)
        else zone_page_state z NR_FREE_PAGES)"

subsection \<open>Reaching a node of the tree\<close>

text \<open>The state in which the loop arrives behind the nodes \<open>ts\<close>, when the body has
  ended in \<open>continue\<close> for each of them; \<open>None\<close> when the loop has left before.\<close>

fun scan_through :: "kernel \<Rightarrow> lmk \<Rightarrow> int \<Rightarrow> scan_state \<Rightarrow> task list \<Rightarrow> scan_state option" where
  "scan_through K L min_adj st [] = Some st"
| "scan_through K L min_adj st (tsk # ts) =
     (case scan_body K L min_adj st tsk of
        Continue st' \<Rightarrow> scan_through K L min_adj st' ts
      | Break st' \<Rightarrow> None
      | Return_0 t \<Rightarrow> None)"

subsection \<open>The specification's reading of a candidate\<close>







text \<open>Where the descent of \<open>add_2_adj_tree\<close> puts a task in the in-order sequence:
  behind the entries with a greater oom_adj, in front of all others.\<close>

fun adj_insert :: "task \<Rightarrow> task list \<Rightarrow> task list" where
  "adj_insert tsk [] = [tsk]"
| "adj_insert tsk (e # es) =
     (if oom_adj tsk < oom_adj e then e # adj_insert tsk es else tsk # e # es)"

subsection \<open>Scenarios\<close>

text \<open>A single-threaded user task with memory, and no flag set.\<close>

definition user_task :: "nat \<Rightarrow> int \<Rightarrow> pages \<Rightarrow> task" where
  "user_task i adj rss =
     \<lparr>self = \<lparr>pid = i, tgid = i, flags = {}, thread_flags = {},
              mm = Some \<lparr>get_mm_rss = rss\<rparr>, fatal_signal_pending = False\<rparr>,
      siblings = [], oom_adj = adj\<rparr>"

definition task_A :: task where "task_A = user_task 1 6 200"
definition task_B :: task where "task_B = user_task 2 6 500"
definition task_C :: task where "task_C = user_task 3 12 10"

text \<open>The tree after adding A, B and C in this order, balanced: C is leftmost.\<close>

definition tree_ABC :: rb_node where
  "tree_ABC = RB_NODE (RB_NODE RB_NULL task_C RB_NULL) task_B (RB_NODE RB_NULL task_A RB_NULL)"

definition keep_shape :: "rb_node \<Rightarrow> rb_node" where
  "keep_shape t = t"

text \<open>A task that was killed and has released its memory, and a task killed and still
  holding it; a task of oom_adj 0 at the right end of the tree.\<close>

definition task_gone :: task where
  "task_gone =
     \<lparr>self = \<lparr>pid = 4, tgid = 4, flags = {PF_EXITING},
              thread_flags = {TIF_MEMDIE, TIF_MM_RELEASED}, mm = None,
              fatal_signal_pending = True\<rparr>,
      siblings = [], oom_adj = 12\<rparr>"

definition task_dying :: task where
  "task_dying =
     \<lparr>self = \<lparr>pid = 5, tgid = 5, flags = {PF_EXITING}, thread_flags = {TIF_MEMDIE},
              mm = Some \<lparr>get_mm_rss = 300\<rparr>, fatal_signal_pending = True\<rparr>,
      siblings = [], oom_adj = 12\<rparr>"

definition task_init :: task where "task_init = user_task 6 0 50"

definition tree_gone :: rb_node where
  "tree_gone =
     RB_NODE (RB_NODE RB_NULL task_gone RB_NULL) task_C (RB_NODE RB_NULL task_init RB_NULL)"

definition tree_dying :: rb_node where
  "tree_dying =
     RB_NODE (RB_NODE RB_NULL task_gone RB_NULL) task_dying (RB_NODE RB_NULL task_init RB_NULL)"

text \<open>Two zones, highmem above normal; index 2 would be the movable zone.\<close>

definition zone_normal :: zone where
  "zone_normal =
     \<lparr>zone_idx = 0,
      zone_page_state = (\<lambda>item. if item = NR_FREE_PAGES then 40 else 0),
      lowmem_reserve = (\<lambda>i. if i = 1 then 8 else 0),
      present_pages = 1000, low_wmark_pages = 20, high_wmark_pages = 30\<rparr>"

definition zone_highmem :: zone where
  "zone_highmem =
     \<lparr>zone_idx = 1,
      zone_page_state = (\<lambda>item. if item = NR_FREE_PAGES then 7
                                else if item = NR_FILE_PAGES then 60
                                else if item = NR_SHMEM then 10 else 0),
      lowmem_reserve = (\<lambda>i. 0),
      present_pages = 1000, low_wmark_pages = 20, high_wmark_pages = 30\<rparr>"

definition zone_movable :: zone where
  "zone_movable =
     \<lparr>zone_idx = 2,
      zone_page_state = (\<lambda>item. if item = NR_FREE_PAGES then 5
                                else if item = NR_FILE_PAGES then 9 else 0),
      lowmem_reserve = (\<lambda>i. 0),
      present_pages = 100, low_wmark_pages = 2, high_wmark_pages = 3\<rparr>"

text \<open>
  A kernel with the zonelist \<open>zl\<close>, 3000 pages in every global counter but shmem,
  every watermark satisfied, and a caller that is an ordinary living task (or kswapd,
  for \<open>kswapd\<close>). The request is for the normal zone. \<open>HZ\<close> is 100 and the time 1050.
\<close>

definition caller_task :: task where "caller_task = user_task 9 0 100"



definition scenario_kernel :: "zone list \<Rightarrow> bool \<Rightarrow> kernel" where
  "scenario_kernel zl kswapd =
     \<lparr>HZ = 100, SWAP_CLUSTER_MAX = 32, ZONE_MOVABLE = 2, LMK_ZONE = 1,
      node_zonelist = (\<lambda>gfp_mask. zl), gfp_zone = (\<lambda>gfp_mask. 0),
      first_zones_zonelist = (\<lambda>zonelist high_zoneidx. zone_normal),
      zone_watermark_ok = (\<lambda>z order mark classzone_idx alloc_flags. True),
      global_page_state = (\<lambda>item. if item = NR_SHMEM then 0 else 3000),
      current_is_kswapd = kswapd,
      current = self caller_task, group_leader = caller_task,
      jiffies = 1050, mutex_lock_interrupted = False\<rparr>"

text \<open>The same kernel entered by a thread of a dying group, and entered by a caller
  whose wait for the mutex is interrupted.\<close>

definition dying_caller_kernel :: kernel where
  "dying_caller_kernel =
     (scenario_kernel [] False)\<lparr>current := self task_dying, group_leader := task_dying\<rparr>"

definition interrupted_kernel :: kernel where
  "interrupted_kernel = (scenario_kernel [] False)\<lparr>mutex_lock_interrupted := True\<rparr>"

section \<open>The threshold lookup\<close>

lemma minfree_loop_find:
  "0 \<le> i \<Longrightarrow>
   minfree_loop L other_free other_file array_size i min_adj =
     (case find (row_crossed L other_free other_file) [nat i..<nat array_size] of
        None \<Rightarrow> min_adj
      | Some j \<Rightarrow> lowmem_adj L ! j)"
proof (induction L other_free other_file array_size i min_adj rule: minfree_loop.induct)
  case (1 L other_free other_file array_size i min_adj)
  show ?case
  proof (cases "i < array_size")
    case False
    then have "[nat i..<nat array_size] = []" by simp
    with False show ?thesis by (simp add: minfree_loop.simps)
  next
    case True
    with "1.prems" have upt: "[nat i..<nat array_size] = nat i # [nat (i + 1)..<nat array_size]"
      by (simp add: upt_conv_Cons nat_add_distrib)
    show ?thesis
    proof (cases "row_crossed L other_free other_file (nat i)")
      case True
      with \<open>i < array_size\<close> upt show ?thesis
        by (simp add: minfree_loop.simps [of L other_free other_file array_size i] row_crossed_def)
    next
      case False
      with \<open>i < array_size\<close> "1.prems" have
        "minfree_loop L other_free other_file array_size i min_adj =
         minfree_loop L other_free other_file array_size (i + 1) min_adj"
        by (auto simp: minfree_loop.simps [of L other_free other_file array_size i] row_crossed_def)
      also have "\<dots> =
        (case find (row_crossed L other_free other_file) [nat (i + 1)..<nat array_size] of
           None \<Rightarrow> min_adj | Some j \<Rightarrow> lowmem_adj L ! j)"
      proof -
        have n: "\<not> (other_free <s lowmem_minfree L ! nat i \<and>
                    other_file <s lowmem_minfree L ! nat i)"
          using False by (simp add: row_crossed_def)
        from "1.prems" have "0 \<le> i + 1" by simp
        from "1.IH" [OF \<open>i < array_size\<close> n this] show ?thesis .
      qed
      finally show ?thesis using upt False by simp
    qed
  qed
qed

lemma lowmem_array_size_min:
  "lowmem_array_size L =
     min (int (length (lowmem_adj L))) (min (lowmem_adj_size L) (lowmem_minfree_size L))"
  by (simp add: lowmem_array_size_def Let_def min_def)

text \<open>
  C2. Whatever the two figures are, the lookup walks the rows below the common length
  (the shortest of the array and the two configured sizes) from row 0 upwards and
  returns the oom_adj of the first row that both figures are below, the value of no later
  row; without such a row \<open>min_adj\<close> stays \<open>OOM_SCORE_ADJ_MAX + 1\<close>. With the
  tables the module starts with (floors 0, 1, 6, 12, 15 and levels 1536, 2048, 4096,
  16384; \<open>lowmem_adj_size\<close> is 4, and the same holds with all five floors
  configured), 1000 free and 1000 file pages give 0, and 5000 and 5000 give 12.
\<close>

theorem lowmem_min_adj_first_row:
  "lowmem_min_adj L free_pages reclaimable_file_pages =
     (case find (row_crossed L free_pages reclaimable_file_pages)
                [0..<nat (min (int (length (lowmem_adj L)))
                              (min (lowmem_adj_size L) (lowmem_minfree_size L)))] of
        None \<Rightarrow> OOM_SCORE_ADJ_MAX + 1
      | Some i \<Rightarrow> lowmem_adj L ! i)
   \<and> lowmem_min_adj lmk_init 1000 1000 = 0
   \<and> lowmem_min_adj lmk_init 5000 5000 = 12
   \<and> lowmem_min_adj (lmk_init\<lparr>lowmem_adj_size := 5\<rparr>) 1000 1000 = 0
   \<and> lowmem_min_adj (lmk_init\<lparr>lowmem_adj_size := 5\<rparr>) 5000 5000 = 12"
proof -
  have a: "lowmem_min_adj L free_pages reclaimable_file_pages =
     (case find (row_crossed L free_pages reclaimable_file_pages)
                [0..<nat (min (int (length (lowmem_adj L)))
                              (min (lowmem_adj_size L) (lowmem_minfree_size L)))] of
        None \<Rightarrow> OOM_SCORE_ADJ_MAX + 1
      | Some i \<Rightarrow> lowmem_adj L ! i)"
    unfolding lowmem_min_adj_def
    using minfree_loop_find [of 0 L free_pages reclaimable_file_pages "lowmem_array_size L"
                                "OOM_SCORE_ADJ_MAX + 1"]
    by (simp add: lowmem_array_size_min)
  have b: "lowmem_min_adj lmk_init 1000 1000 = 0"
    by (simp add: lowmem_min_adj_def lowmem_array_size_def lmk_init_def minfree_loop.simps
                  word_sless_alt)
  have c: "lowmem_min_adj lmk_init 5000 5000 = 12"
    by (simp add: lowmem_min_adj_def lowmem_array_size_def lmk_init_def minfree_loop.simps
                  word_sless_alt)
  have d: "lowmem_min_adj (lmk_init\<lparr>lowmem_adj_size := 5\<rparr>) 1000 1000 = 0"
    by (simp add: lowmem_min_adj_def lowmem_array_size_def lmk_init_def minfree_loop.simps
                  word_sless_alt)
  have e: "lowmem_min_adj (lmk_init\<lparr>lowmem_adj_size := 5\<rparr>) 5000 5000 = 12"
    by (simp add: lowmem_min_adj_def lowmem_array_size_def lmk_init_def minfree_loop.simps
                  word_sless_alt)
  from a b c d e show ?thesis by blast
qed

section \<open>The order of the tree and the victim of a scan\<close>

lemma adj_insert_behind:
  "\<forall>x \<in> set xs. oom_adj tsk < oom_adj x \<Longrightarrow> adj_insert tsk (xs @ ys) = xs @ adj_insert tsk ys"
  by (induction xs) auto

lemma adj_insert_front:
  "\<not> oom_adj tsk < oom_adj y \<Longrightarrow> adj_insert tsk (xs @ y # ys) = adj_insert tsk xs @ y # ys"
  by (induction xs) auto

lemma inorder_rb_link_node:
  "adj_ordered t \<Longrightarrow> inorder (rb_link_node tsk t) = adj_insert tsk (inorder t)"
proof (induction t)
  case RB_NULL
  show ?case by simp
next
  case (RB_NODE l e r)
  from RB_NODE.prems have ol: "adj_ordered l" and or: "adj_ordered r"
    and le: "\<forall>x \<in> set (inorder l). oom_adj e \<le> oom_adj x"
    by (auto simp: adj_ordered_def sorted_wrt_append)
  show ?case
  proof (cases "oom_adj tsk < oom_adj e")
    case True
    with le have "\<forall>x \<in> set (inorder l @ [e]). oom_adj tsk < oom_adj x" by auto
    from adj_insert_behind [OF this, of "inorder r"] True RB_NODE.IH(2) [OF or]
    show ?thesis by simp
  next
    case False
    from adj_insert_front [OF False, of "inorder l" "inorder r"] False RB_NODE.IH(1) [OF ol]
    show ?thesis by simp
  qed
qed

lemma set_adj_insert: "set (adj_insert tsk xs) = insert tsk (set xs)"
  by (induction xs) auto

lemma sorted_adj_insert:
  "sorted_wrt (\<lambda>a b. oom_adj b \<le> oom_adj a) xs \<Longrightarrow>
   sorted_wrt (\<lambda>a b. oom_adj b \<le> oom_adj a) (adj_insert tsk xs)"
  by (induction xs) (auto simp: set_adj_insert)

text \<open>With any rebalancing that leaves the in-order sequence as it is, adding a task
  keeps the tree ordered, the greatest oom_adj leftmost.\<close>

lemma inorder_add_2_adj_tree:
  assumes "\<And>t. inorder (rb_insert_color t) = inorder t" and "adj_ordered t"
  shows "inorder (add_2_adj_tree rb_insert_color tsk t) = adj_insert tsk (inorder t)"
    and "adj_ordered (add_2_adj_tree rb_insert_color tsk t)"
  using assms
  by (simp_all add: add_2_adj_tree_def inorder_rb_link_node adj_ordered_def sorted_adj_insert)

lemma inorder_fold_add_2_adj_tree:
  assumes "\<And>t. inorder (rb_insert_color t) = inorder t" and "adj_ordered t"
  shows "inorder (fold (add_2_adj_tree rb_insert_color) tsks t) = fold adj_insert tsks (inorder t)
         \<and> adj_ordered (fold (add_2_adj_tree rb_insert_color) tsks t)"
  using assms(2)
proof (induction tsks arbitrary: t)
  case Nil
  then show ?case by simp
next
  case (Cons a tsks)
  from inorder_add_2_adj_tree [OF assms(1) Cons.prems, of a]
       Cons.IH [of "add_2_adj_tree rb_insert_color a t"]
  show ?case by simp
qed

lemma three_perms:
  assumes "mset xs = {#a, b, c#}"
  shows "xs \<in> {[a, b, c], [a, c, b], [b, a, c], [b, c, a], [c, a, b], [c, b, a]}"
proof -
  from assms have "size (mset xs) = 3" by simp
  then have "length xs = 3" by simp
  then obtain x y z where xs: "xs = [x, y, z]"
    by (auto simp: length_Suc_conv numeral_3_eq_3)
  with assms show ?thesis
    by (auto simp: add_eq_conv_ex)
qed

lemmas scan_eval = scan_body_def test_task_flag_def each_thread_def find_lock_task_mm_def
  user_task_def word_sle_eq word_sless_alt Let_def

text \<open>
  C1, as the code has it. Whatever order A (oom_adj 6, 200 pages), B (6, 500) and C
  (12, 10) are added in, and whatever the rebalancing does short of changing the
  in-order sequence, the walk from the leftmost node meets oom_adj 12, 6, 6: it never
  increases. A scan with \<open>min_adj = 6\<close> selects C, the first node, and leaves the loop
  at the next node, whose oom_adj 6 is below the selected 12; neither A nor B is
  selected.
\<close>

theorem scan_ABC_selects_C:
  assumes "\<And>t. inorder (rb_insert_color t) = inorder t"
    and "mset tsks = {#task_A, task_B, task_C#}"
  shows "map oom_adj (inorder (fold (add_2_adj_tree rb_insert_color) tsks RB_NULL)) = [12, 6, 6]
    \<and> scan_loop K L 6 \<lparr>selected = None, selected_tasksize = 0, selected_oom_adj = 6\<rparr>
         (inorder (fold (add_2_adj_tree rb_insert_color) tsks RB_NULL)) =
       Scanned \<lparr>selected = Some (self task_C), selected_tasksize = 10, selected_oom_adj = 12\<rparr>
    \<and> scan_body K L 6
         \<lparr>selected = Some (self task_C), selected_tasksize = 10, selected_oom_adj = 12\<rparr> task_A =
       Break \<lparr>selected = Some (self task_C), selected_tasksize = 10, selected_oom_adj = 12\<rparr>
    \<and> scan_body K L 6
         \<lparr>selected = Some (self task_C), selected_tasksize = 10, selected_oom_adj = 12\<rparr> task_B =
       Break \<lparr>selected = Some (self task_C), selected_tasksize = 10, selected_oom_adj = 12\<rparr>"
proof -
  have io: "inorder (fold (add_2_adj_tree rb_insert_color) tsks RB_NULL) = fold adj_insert tsks []"
    using inorder_fold_add_2_adj_tree [OF assms(1), of RB_NULL tsks]
    by (simp add: adj_ordered_def)
  from three_perms [OF assms(2)] have
    "fold adj_insert tsks [] = [task_C, task_A, task_B] \<or>
     fold adj_insert tsks [] = [task_C, task_B, task_A]"
    by (auto simp: task_A_def task_B_def task_C_def user_task_def)
  then have "map oom_adj (fold adj_insert tsks []) = [12, 6, 6]
    \<and> scan_loop K L 6 \<lparr>selected = None, selected_tasksize = 0, selected_oom_adj = 6\<rparr>
         (fold adj_insert tsks []) =
       Scanned \<lparr>selected = Some (self task_C), selected_tasksize = 10, selected_oom_adj = 12\<rparr>"
    by (auto simp: task_A_def task_B_def task_C_def scan_eval)
  moreover have "scan_body K L 6
         \<lparr>selected = Some (self task_C), selected_tasksize = 10, selected_oom_adj = 12\<rparr> task_A =
       Break \<lparr>selected = Some (self task_C), selected_tasksize = 10, selected_oom_adj = 12\<rparr>"
    by (simp add: task_A_def scan_eval)
  moreover have "scan_body K L 6
         \<lparr>selected = Some (self task_C), selected_tasksize = 10, selected_oom_adj = 12\<rparr> task_B =
       Break \<lparr>selected = Some (self task_C), selected_tasksize = 10, selected_oom_adj = 12\<rparr>"
    by (simp add: task_B_def scan_eval)
  ultimately show ?thesis unfolding io by blast
qed

theorem scan_ABC_selects_C_witness:
  "map oom_adj (inorder (fold (add_2_adj_tree keep_shape) [task_A, task_B, task_C] RB_NULL))
     = [12, 6, 6]
   \<and> scan_loop (scenario_kernel [] False) lmk_init 6
        \<lparr>selected = None, selected_tasksize = 0, selected_oom_adj = 6\<rparr>
        (inorder (fold (add_2_adj_tree keep_shape) [task_A, task_B, task_C] RB_NULL)) =
      Scanned \<lparr>selected = Some (self task_C), selected_tasksize = 10, selected_oom_adj = 12\<rparr>"
proof -
  have r: "\<And>t. inorder (keep_shape t) = inorder t" by (simp add: keep_shape_def)
  have m: "mset [task_A, task_B, task_C] = {#task_A, task_B, task_C#}" by simp
  from scan_ABC_selects_C [of keep_shape "[task_A, task_B, task_C]", OF r m]
  show ?thesis by blast
qed

text \<open>
  The scenario run through \<open>lowmem_shrink\<close>: 3000 free and 3000 file pages give
  \<open>min_adj = 6\<close>; the tree holds A, B and C with C leftmost, as adding them leaves it;
  SIGKILL goes to C (pid 3), not to B (pid 2).
\<close>

theorem scan_ABC_kills_C:
  "shrink_min_adj (scenario_kernel [] False) (lmk_init\<lparr>tasksadj := tree_ABC\<rparr>) 0 = 6
   \<and> inorder tree_ABC = inorder (fold (add_2_adj_tree keep_shape) [task_A, task_B, task_C] RB_NULL)
   \<and> map oom_adj (inorder tree_ABC) = [12, 6, 6]
   \<and> trace (lowmem_shrink (scenario_kernel [] False) (lmk_init\<lparr>tasksadj := tree_ABC\<rparr>) 1 0) =
       [MutexLock, RcuReadLock, SendSigkill 3, SetMemdie 3, RcuReadUnlock, Msleep 20, MutexUnlock]
   \<and> pid (self task_C) = 3 \<and> pid (self task_B) = 2"
proof -
  have m: "shrink_min_adj (scenario_kernel [] False) (lmk_init\<lparr>tasksadj := tree_ABC\<rparr>) 0 = 6"
    by (simp add: shrink_min_adj_def shrink_estimate_def tune_lmk_param_def scenario_kernel_def
                  lowmem_min_adj_def lowmem_array_size_def lmk_init_def minfree_loop.simps
                  word_sless_alt Let_def)
  have i: "inorder tree_ABC =
           inorder (fold (add_2_adj_tree keep_shape) [task_A, task_B, task_C] RB_NULL)"
    by (simp add: tree_ABC_def add_2_adj_tree_def keep_shape_def task_A_def task_B_def
                  task_C_def user_task_def)
  have o: "map oom_adj (inorder tree_ABC) = [12, 6, 6]"
    by (simp add: tree_ABC_def task_A_def task_B_def task_C_def user_task_def)
  have d: "\<not> current_is_dying (scenario_kernel [] False)"
    by (simp add: current_is_dying_def scenario_kernel_def caller_task_def user_task_def)
  have s: "scan_loop (scenario_kernel [] False) (lmk_init\<lparr>tasksadj := tree_ABC\<rparr>) 6
             \<lparr>selected = None, selected_tasksize = 0, selected_oom_adj = 6\<rparr> (inorder tree_ABC) =
           Scanned \<lparr>selected = Some (self task_C), selected_tasksize = 10, selected_oom_adj = 12\<rparr>"
    by (simp add: tree_ABC_def task_A_def task_B_def task_C_def scan_eval)
  have k: "\<not> mutex_lock_interrupted (scenario_kernel [] False)"
    by (simp add: scenario_kernel_def)
  have t: "trace (lowmem_shrink (scenario_kernel [] False) (lmk_init\<lparr>tasksadj := tree_ABC\<rparr>) 1 0) =
       [MutexLock, RcuReadLock, SendSigkill 3, SetMemdie 3, RcuReadUnlock, Msleep 20, MutexUnlock]"
    using m d s k
    by (simp add: lowmem_shrink_def Let_def OOM_SCORE_ADJ_MAX_def task_C_def user_task_def)
  have p: "pid (self task_C) = 3 \<and> pid (self task_B) = 2"
    by (simp add: task_B_def task_C_def user_task_def)
  from m i o t p show ?thesis by blast
qed

section \<open>Facts about single steps\<close>


lemma test_task_flag_loop_iff:
  "test_task_flag_loop ts flag = (\<exists>t \<in> set ts. flag \<in> thread_flags t)"
  by (induction ts) auto

lemma test_task_flag_iff:
  "test_task_flag p flag = (\<exists>t \<in> set (each_thread p). flag \<in> thread_flags t)"
  by (simp add: test_task_flag_def test_task_flag_loop_iff)



text \<open>The loop arrives at a node in the state that \<open>scan_through\<close> gives for the
  nodes in front of it.\<close>

lemma scan_loop_through:
  "scan_through K L min_adj st pre = Some st' \<Longrightarrow>
   scan_loop K L min_adj st (pre @ tsk # nxt # rest) = scan_loop K L min_adj st' (tsk # nxt # rest)"
proof (induction pre arbitrary: st)
  case Nil
  then show ?case by simp
next
  case (Cons x xs)
  obtain y ys where e: "xs @ tsk # nxt # rest = y # ys" by (cases xs) auto
  from Cons.prems obtain st1 where b: "scan_body K L min_adj st x = Continue st1"
    and t: "scan_through K L min_adj st1 xs = Some st'"
    by (auto split: loop_ctl.splits)
  have "scan_loop K L min_adj st ((x # xs) @ tsk # nxt # rest) =
        scan_loop K L min_adj st1 (y # ys)"
    using b e by simp
  with Cons.IH [OF t] e show ?case by simp
qed

subsection \<open>The grace window in wrap-around time\<close>

lemma uint_nonneg_signed:
  fixes w :: "32 word"
  assumes "0 \<le>s w"
  shows "uint w < 2 ^ 31"
proof -
  from assms have s: "0 \<le> sint w" by (simp add: word_sle_eq)
  have "sint w < 2 ^ 31" using sint_lt [of w] by simp
  moreover have "uint w = take_bit 32 (sint w)" using uint_sint [of w] by simp
  ultimately show ?thesis using s by (simp add: take_bit_int_eq_self)
qed

text \<open>From the jiffy of a kill up to \<open>HZ\<close> jiffies later, \<open>time_before_eq\<close> holds
  against the deadline \<open>jiffies + HZ\<close> set at the kill, also across a wrap of the
  counter.\<close>

lemma within_grace_window:
  fixes d hz kill_time :: "32 word"
  assumes "d \<le> hz" and "0 \<le>s hz"
  shows "time_before_eq (kill_time + d) (kill_time + hz)"
proof -
  from assms(1) have le: "uint d \<le> uint hz" by (simp add: word_le_def)
  then have u: "uint (hz - d) = uint hz - uint d" by (simp add: uint_sub_lem)
  have "0 \<le> uint d" by simp
  with u uint_nonneg_signed [OF assms(2)] le
  have b: "0 \<le> uint (hz - d)" "uint (hz - d) < 2 ^ 31"
    by linarith+
  have "sint (hz - d) = signed_take_bit 31 (uint (hz - d))"
    using sint_uint [of "hz - d"] by simp
  also have "\<dots> = uint (hz - d)"
  proof (rule signed_take_bit_int_eq_self)
    show "- (2 ^ 31) \<le> uint (hz - d)" by (rule order_trans [of _ 0]) simp_all
    show "uint (hz - d) < 2 ^ 31" by (rule b(2))
  qed
  finally have "0 \<le> sint (hz - d)" using b by simp
  then show ?thesis by (simp add: time_before_eq_def word_sle_eq)
qed

text \<open>A call that sends SIGKILL sets the deadline to \<open>jiffies + HZ\<close>.\<close>

lemma kill_sets_deadline:
  "SendSigkill p \<in> set (trace (lowmem_shrink K L nr_to_scan gfp_mask)) \<Longrightarrow>
   deathpending_timeout (lowmem_shrink K L nr_to_scan gfp_mask) = jiffies K + HZ K"
  by (auto simp: lowmem_shrink_def Let_def split: if_splits loop_exit.splits option.splits)

subsection \<open>The scenarios, evaluated\<close>

lemma scenario_min_adj:
  "shrink_min_adj (scenario_kernel [] k)
     (lmk_init\<lparr>lowmem_deathpending_timeout := t, tasksadj := r\<rparr>) 0 = 6"
  by (simp add: shrink_min_adj_def shrink_estimate_def tune_lmk_param_def scenario_kernel_def
                lowmem_min_adj_def lowmem_array_size_def lmk_init_def minfree_loop.simps
                zone_normal_def word_sless_alt Let_def)

lemma scenario_alive: "\<not> current_is_dying (scenario_kernel zl k)"
  by (simp add: current_is_dying_def scenario_kernel_def caller_task_def scan_eval)

lemma scenario_fields:
  "\<not> mutex_lock_interrupted (scenario_kernel zl k)"
  "jiffies (scenario_kernel zl k) = 1050"
  "HZ (scenario_kernel zl k) = 100"
  "shrink_rem (scenario_kernel zl k) = 12000"
  "current (scenario_kernel zl k) = self caller_task"
  by (simp_all add: scenario_kernel_def shrink_rem_def)

section \<open>The selection rule\<close>








subsection \<open>The loop over the nodes of one oom_adj\<close>









section \<open>The grace window\<close>

text \<open>
  C4, as the code has it. The deadline was set at a kill to the jiffy of the kill plus
  \<open>HZ\<close>, and the call comes at most \<open>HZ\<close> jiffies later. The scan runs (a positive
  \<open>nr_to_scan\<close>, a caller that is not dying, the mutex taken, a threshold crossed) and
  arrives at a node that is not the last of the tree, is no kernel thread, has not
  released its memory and has a thread with \<open>TIF_MEMDIE\<close>. Then the call sends no
  signal and returns 0, the deadline stays, and the mutex is released; a caller of the
  node's thread group sets its own \<open>TIF_MEMDIE\<close>, any other caller sleeps.
\<close>

theorem deathpending_task_stops_scan:
  assumes "lowmem_deathpending_timeout L = kill_time + HZ K" and "jiffies K = kill_time + d"
    and "d \<le> HZ K" and "0 \<le>s HZ K"
    and "0 < nr_to_scan" and "\<not> current_is_dying K" and "\<not> mutex_lock_interrupted K"
    and "shrink_min_adj K L gfp_mask \<noteq> OOM_SCORE_ADJ_MAX + 1"
    and "inorder (tasksadj L) = pre @ tsk # nxt # rest"
    and "scan_through K L (shrink_min_adj K L gfp_mask)
           \<lparr>selected = None, selected_tasksize = 0,
            selected_oom_adj = shrink_min_adj K L gfp_mask\<rparr> pre = Some st"
    and "PF_KTHREAD \<notin> flags (self tsk)" and "\<not> test_task_flag tsk TIF_MM_RELEASED"
    and "test_task_flag tsk TIF_MEMDIE"
  shows "lowmem_shrink K L nr_to_scan gfp_mask =
           \<lparr>retval = 0,
            trace = [MutexLock, RcuReadLock, RcuReadUnlock,
                     if same_thread_group (current K) tsk then SetMemdie (pid (current K))
                     else Msleep 20,
                     MutexUnlock],
            deathpending_timeout = lowmem_deathpending_timeout L\<rparr>"
proof -
  have g: "time_before_eq (jiffies K) (lowmem_deathpending_timeout L)"
    using within_grace_window [OF assms(3,4), of kill_time] assms(1,2) by simp
  with assms(11-13) have b: "scan_body K L (shrink_min_adj K L gfp_mask) st tsk = Return_0 tsk"
    by (simp add: scan_body_def)
  have "scan_loop K L (shrink_min_adj K L gfp_mask)
          \<lparr>selected = None, selected_tasksize = 0,
           selected_oom_adj = shrink_min_adj K L gfp_mask\<rparr> (inorder (tasksadj L)) =
        Deathpending tsk"
    unfolding assms(9) using scan_loop_through [OF assms(10)] b by simp
  with assms(5-8) show ?thesis
    by (simp add: lowmem_shrink_def Let_def)
qed

theorem deathpending_task_stops_scan_witness:
  "lowmem_shrink (scenario_kernel [] False)
        (lmk_init\<lparr>lowmem_deathpending_timeout := 1100, tasksadj := tree_dying\<rparr>) 1 0 =
      \<lparr>retval = 0,
       trace = [MutexLock, RcuReadLock, RcuReadUnlock, Msleep 20, MutexUnlock],
       deathpending_timeout = 1100\<rparr>"
proof -
  let ?K = "scenario_kernel [] False"
  let ?L = "lmk_init\<lparr>lowmem_deathpending_timeout := 1100, tasksadj := tree_dying\<rparr>"
  have 1: "lowmem_deathpending_timeout ?L = 1000 + HZ ?K" by (simp add: scenario_kernel_def)
  have 2: "jiffies ?K = 1000 + 50" by (simp add: scenario_kernel_def)
  have 3: "(50::32 word) \<le> HZ ?K" by (simp add: scenario_kernel_def)
  have 4: "0 \<le>s HZ ?K" by (simp add: scenario_kernel_def word_sle_eq)
  have 5: "(0::int) < 1" by simp
  have 6: "\<not> current_is_dying ?K" by (rule scenario_alive)
  have 7: "\<not> mutex_lock_interrupted ?K" by (simp add: scenario_kernel_def)
  have m: "shrink_min_adj ?K ?L 0 = 6" by (rule scenario_min_adj)
  have 8: "shrink_min_adj ?K ?L 0 \<noteq> OOM_SCORE_ADJ_MAX + 1" by (simp add: m OOM_SCORE_ADJ_MAX_def)
  have 9: "inorder (tasksadj ?L) = [task_gone] @ task_dying # task_init # []"
    by (simp add: tree_dying_def)
  have 10: "scan_through ?K ?L (shrink_min_adj ?K ?L 0)
             \<lparr>selected = None, selected_tasksize = 0, selected_oom_adj = shrink_min_adj ?K ?L 0\<rparr>
             [task_gone] =
            Some \<lparr>selected = None, selected_tasksize = 0, selected_oom_adj = 6\<rparr>"
    unfolding m by (simp add: task_gone_def scan_eval)
  have 11: "PF_KTHREAD \<notin> flags (self task_dying)" by (simp add: task_dying_def)
  have 12: "\<not> test_task_flag task_dying TIF_MM_RELEASED" by (simp add: task_dying_def scan_eval)
  have 13: "test_task_flag task_dying TIF_MEMDIE" by (simp add: task_dying_def scan_eval)
  have g: "\<not> same_thread_group (current ?K) task_dying"
    by (simp add: same_thread_group_def scenario_kernel_def caller_task_def task_dying_def
                  user_task_def)
  from deathpending_task_stops_scan [OF 1 2 3 4 5 6 7 8 9 10 11 12 13] g show ?thesis by simp
qed

text \<open>
  Inside the grace window (time 1050, deadline 1100) the walk meets a task with
  \<open>TIF_MEMDIE\<close> that has released its memory: the body skips it before the test of
  the deadline, and the call goes on to kill C (pid 3) and to return a value other than 0.
\<close>

theorem released_deathpending_task_is_skipped:
  "time_before_eq (jiffies (scenario_kernel [] False)) 1100
   \<and> inorder tree_gone = [task_gone, task_C, task_init]
   \<and> test_task_flag task_gone TIF_MEMDIE
   \<and> lowmem_shrink (scenario_kernel [] False)
        (lmk_init\<lparr>lowmem_deathpending_timeout := 1100, tasksadj := tree_gone\<rparr>) 1 0 =
      \<lparr>retval = 11990,
       trace = [MutexLock, RcuReadLock, SendSigkill 3, SetMemdie 3, RcuReadUnlock, Msleep 20,
                MutexUnlock],
       deathpending_timeout = 1150\<rparr>"
proof -
  have a: "time_before_eq (jiffies (scenario_kernel [] False)) 1100"
    by (simp add: time_before_eq_def scenario_kernel_def word_sle_eq)
  have b: "inorder tree_gone = [task_gone, task_C, task_init]"
    by (simp add: tree_gone_def)
  have c: "test_task_flag task_gone TIF_MEMDIE"
    by (simp add: task_gone_def scan_eval)
  have s: "scan_loop (scenario_kernel [] False)
             (lmk_init\<lparr>lowmem_deathpending_timeout := 1100, tasksadj := tree_gone\<rparr>) 6
             \<lparr>selected = None, selected_tasksize = 0, selected_oom_adj = 6\<rparr>
             [task_gone, task_C, task_init] =
           Scanned \<lparr>selected = Some (self task_C), selected_tasksize = 10, selected_oom_adj = 12\<rparr>"
    by (simp add: task_gone_def task_C_def task_init_def scan_eval)
  have d: "lowmem_shrink (scenario_kernel [] False)
        (lmk_init\<lparr>lowmem_deathpending_timeout := 1100, tasksadj := tree_gone\<rparr>) 1 0 =
      \<lparr>retval = 11990,
       trace = [MutexLock, RcuReadLock, SendSigkill 3, SetMemdie 3, RcuReadUnlock, Msleep 20,
                MutexUnlock],
       deathpending_timeout = 1150\<rparr>"
    using scenario_min_adj [where t = 1100 and r = tree_gone and k = False]
          scenario_alive [of "[]" False] s scenario_fields [of "[]" False] b
    by (simp add: lowmem_shrink_def Let_def OOM_SCORE_ADJ_MAX_def task_C_def user_task_def)
  from a b c d show ?thesis by blast
qed

section \<open>Calls that do not scan\<close>

text \<open>
  C5, as the code has it. With \<open>nr_to_scan \<le> 0\<close> no signal is sent, whatever the
  threshold loop finds. A caller that is not dying takes no mutex and gets the sum of
  the four counters (active and inactive, anon and file; the sum of the 32-bit
  \<open>int rem\<close>); a dying caller sets its \<open>TIF_MEMDIE\<close> and gets 0.
\<close>

theorem no_scan_returns_rem:
  assumes "nr_to_scan \<le> 0"
  shows "lowmem_shrink K L nr_to_scan gfp_mask =
           (if current_is_dying K
            then \<lparr>retval = 0, trace = [SetMemdie (pid (current K))],
                  deathpending_timeout = lowmem_deathpending_timeout L\<rparr>
            else \<lparr>retval = global_page_state K NR_ACTIVE_ANON +
                           global_page_state K NR_ACTIVE_FILE +
                           global_page_state K NR_INACTIVE_ANON +
                           global_page_state K NR_INACTIVE_FILE,
                  trace = [],
                  deathpending_timeout = lowmem_deathpending_timeout L\<rparr>)"
  using assms by (simp add: lowmem_shrink_def shrink_rem_def Let_def)

theorem no_scan_returns_rem_witness:
  "lowmem_shrink (scenario_kernel [] False) (lmk_init\<lparr>tasksadj := tree_ABC\<rparr>) 0 0 =
     \<lparr>retval = 12000, trace = [], deathpending_timeout = 0\<rparr>"
proof -
  have "(0::int) \<le> 0" by simp
  from no_scan_returns_rem [OF this, of "scenario_kernel [] False"
                                        "lmk_init\<lparr>tasksadj := tree_ABC\<rparr>" 0]
       scenario_alive [of "[]" False]
  show ?thesis by (simp add: scenario_kernel_def lmk_init_def)
qed

text \<open>A dying caller with \<open>nr_to_scan = 0\<close>: the four counters sum to 12000, the call
  returns 0.\<close>

theorem dying_caller_no_scan_returns_0:
  "global_page_state dying_caller_kernel NR_ACTIVE_ANON +
   global_page_state dying_caller_kernel NR_ACTIVE_FILE +
   global_page_state dying_caller_kernel NR_INACTIVE_ANON +
   global_page_state dying_caller_kernel NR_INACTIVE_FILE = 12000
   \<and> lowmem_shrink dying_caller_kernel lmk_init 0 0 =
       \<lparr>retval = 0, trace = [SetMemdie 5], deathpending_timeout = 0\<rparr>"
  by (simp add: lowmem_shrink_def current_is_dying_def dying_caller_kernel_def
                scenario_kernel_def task_dying_def lmk_init_def scan_eval)

text \<open>
  C8. A call with a positive \<open>nr_to_scan\<close> whose wait for \<open>scan_mutex\<close> is
  interrupted returns 0 and has done nothing by then: no mutex held, no scan, no signal.
  (A dying caller never comes to wait: it has set its \<open>TIF_MEMDIE\<close> and returned 0.)
\<close>

theorem interrupted_lock_returns_0:
  assumes "0 < nr_to_scan" and "mutex_lock_interrupted K"
  shows "lowmem_shrink K L nr_to_scan gfp_mask =
           \<lparr>retval = 0,
            trace = (if current_is_dying K then [SetMemdie (pid (current K))] else []),
            deathpending_timeout = lowmem_deathpending_timeout L\<rparr>"
  using assms by (simp add: lowmem_shrink_def)

theorem interrupted_lock_returns_0_witness:
  "lowmem_shrink interrupted_kernel (lmk_init\<lparr>tasksadj := tree_ABC\<rparr>) 1 0 =
     \<lparr>retval = 0, trace = [], deathpending_timeout = 0\<rparr>"
proof -
  have n: "(0::int) < 1" by simp
  have i: "mutex_lock_interrupted interrupted_kernel" by (simp add: interrupted_kernel_def)
  have a: "\<not> current_is_dying interrupted_kernel"
    using scenario_alive [of "[]" False]
    by (simp add: interrupted_kernel_def current_is_dying_def)
  from interrupted_lock_returns_0 [OF n i, of "lmk_init\<lparr>tasksadj := tree_ABC\<rparr>" 0] a
  show ?thesis by (simp add: lmk_init_def)
qed

text \<open>
  C9. When the group leader of the caller is exiting and a thread of its group has
  \<open>TIF_MEMDIE\<close>, the call sets \<open>TIF_MEMDIE\<close> of the caller and returns 0: it takes
  no mutex and walks no tree, whatever \<open>nr_to_scan\<close> is.
\<close>

theorem dying_caller_returns_0:
  assumes "PF_EXITING \<in> flags (self (group_leader K))"
    and "\<exists>t \<in> set (each_thread (group_leader K)). TIF_MEMDIE \<in> thread_flags t"
  shows "lowmem_shrink K L nr_to_scan gfp_mask =
           \<lparr>retval = 0, trace = [SetMemdie (pid (current K))],
            deathpending_timeout = lowmem_deathpending_timeout L\<rparr>"
  using assms by (simp add: lowmem_shrink_def current_is_dying_def test_task_flag_iff)

theorem dying_caller_returns_0_witness:
  "lowmem_shrink dying_caller_kernel (lmk_init\<lparr>tasksadj := tree_ABC\<rparr>) 1 0 =
     \<lparr>retval = 0, trace = [SetMemdie 5], deathpending_timeout = 0\<rparr>"
proof -
  have e: "PF_EXITING \<in> flags (self (group_leader dying_caller_kernel))"
    by (simp add: dying_caller_kernel_def task_dying_def)
  have m: "\<exists>t \<in> set (each_thread (group_leader dying_caller_kernel)).
             TIF_MEMDIE \<in> thread_flags t"
    by (simp add: dying_caller_kernel_def task_dying_def each_thread_def)
  from dying_caller_returns_0 [OF e m, of "lmk_init\<lparr>tasksadj := tree_ABC\<rparr>" 1 0]
  show ?thesis by (simp add: dying_caller_kernel_def task_dying_def lmk_init_def)
qed

section \<open>The mutex\<close>

lemma shrink_tree_ABC:
  "lowmem_shrink (scenario_kernel [] False) (lmk_init\<lparr>tasksadj := tree_ABC\<rparr>) 1 0 =
     \<lparr>retval = 11990,
      trace = [MutexLock, RcuReadLock, SendSigkill 3, SetMemdie 3, RcuReadUnlock, Msleep 20,
               MutexUnlock],
      deathpending_timeout = 1150\<rparr>"
proof -
  have m: "shrink_min_adj (scenario_kernel [] False) (lmk_init\<lparr>tasksadj := tree_ABC\<rparr>) 0 = 6"
    using scenario_min_adj [where t = 0 and r = tree_ABC and k = False]
    by (simp add: lmk_init_def)
  have s: "scan_loop (scenario_kernel [] False) (lmk_init\<lparr>tasksadj := tree_ABC\<rparr>) 6
             \<lparr>selected = None, selected_tasksize = 0, selected_oom_adj = 6\<rparr> (inorder tree_ABC) =
           Scanned \<lparr>selected = Some (self task_C), selected_tasksize = 10, selected_oom_adj = 12\<rparr>"
    by (simp add: tree_ABC_def task_A_def task_B_def task_C_def scan_eval)
  from m s scenario_alive [of "[]" False] scenario_fields [of "[]" False]
  show ?thesis
    by (simp add: lowmem_shrink_def Let_def OOM_SCORE_ADJ_MAX_def task_C_def user_task_def)
qed

text \<open>The mutex is taken by the calls with a positive \<open>nr_to_scan\<close> of a caller that
  is not dying and whose wait is not interrupted, and by no other call.\<close>

lemma scan_mutex_taken_iff:
  "(MutexLock \<in> set (trace (lowmem_shrink K L nr_to_scan gfp_mask))) =
   (0 < nr_to_scan \<and> \<not> current_is_dying K \<and> \<not> mutex_lock_interrupted K)"
  by (auto simp: lowmem_shrink_def Let_def split: if_splits loop_exit.splits option.splits)

text \<open>
  C10. A call that takes \<open>scan_mutex\<close> has a positive \<open>nr_to_scan\<close>, takes the mutex
  once, as the first thing it does, and releases it once, as the last thing before it
  returns: on the return without a scan, on the return from a task whose death is
  pending, and on the last return, after a kill or after a scan that selected nothing.
\<close>

theorem scan_mutex_released_once:
  assumes "MutexLock \<in> set (trace (lowmem_shrink K L nr_to_scan gfp_mask))"
  shows "0 < nr_to_scan
    \<and> count_list (trace (lowmem_shrink K L nr_to_scan gfp_mask)) MutexLock = 1
    \<and> count_list (trace (lowmem_shrink K L nr_to_scan gfp_mask)) MutexUnlock = 1
    \<and> hd (trace (lowmem_shrink K L nr_to_scan gfp_mask)) = MutexLock
    \<and> last (trace (lowmem_shrink K L nr_to_scan gfp_mask)) = MutexUnlock"
  using assms
  by (auto simp: lowmem_shrink_def Let_def split: if_splits loop_exit.splits option.splits)

theorem scan_mutex_released_once_witness:
  "count_list (trace (lowmem_shrink (scenario_kernel [] False)
                        (lmk_init\<lparr>tasksadj := tree_ABC\<rparr>) 1 0)) MutexLock = 1
   \<and> count_list (trace (lowmem_shrink (scenario_kernel [] False)
                          (lmk_init\<lparr>tasksadj := tree_ABC\<rparr>) 1 0)) MutexUnlock = 1
   \<and> last (trace (lowmem_shrink (scenario_kernel [] False)
                    (lmk_init\<lparr>tasksadj := tree_ABC\<rparr>) 1 0)) = MutexUnlock"
proof -
  have "MutexLock \<in> set (trace (lowmem_shrink (scenario_kernel [] False)
                                   (lmk_init\<lparr>tasksadj := tree_ABC\<rparr>) 1 0))"
    by (simp add: shrink_tree_ABC)
  from scan_mutex_released_once [OF this] show ?thesis by blast
qed

section \<open>The memory estimate\<close>

lemma tune_lmk_zone_param_sums:
  "tune_lmk_zone_param K zonelist classzone_idx other_free other_file =
     (other_free - sum_list (map (zone_free_share K classzone_idx) zonelist),
      case other_file of
        None \<Rightarrow> None
      | Some file \<Rightarrow> Some (file - sum_list (map (zone_file_share K classzone_idx) zonelist)))"
  by (induction zonelist arbitrary: other_free other_file)
     (auto simp: zone_free_share_def zone_file_share_def split: option.splits)

text \<open>
  C6, as the code has it. Over a zonelist, \<open>tune_lmk_zone_param\<close> takes from the free
  figure, for every zone but a movable one: the zone's free pages when its index is
  above the request's zone; when it is below, the zone's \<open>lowmem_reserve\<close> for the
  request's zone if the zone's watermark is satisfied, its free pages if not. From the
  file figure, when the caller passes one, it takes the file pages less the shmem pages
  of every zone above the request's zone but a movable one. A movable zone takes
  nothing. The subtractions are those of 32-bit \<open>int\<close>s: nothing is clamped at 0.
\<close>

theorem tune_lmk_zone_param_shares:
  "tune_lmk_zone_param K zonelist classzone_idx other_free other_file =
     (other_free - sum_list (map (zone_free_share K classzone_idx) zonelist),
      case other_file of
        None \<Rightarrow> None
      | Some file \<Rightarrow> Some (file - sum_list (map (zone_file_share K classzone_idx) zonelist)))
   \<and> sint (fst (tune_lmk_zone_param (scenario_kernel [zone_highmem] False) [zone_highmem] 0 3
                  (Some 3))) = - 4"
proof -
  have "sint (fst (tune_lmk_zone_param (scenario_kernel [zone_highmem] False) [zone_highmem] 0 3
                  (Some 3))) = - 4"
    by (simp add: scenario_kernel_def zone_highmem_def)
  with tune_lmk_zone_param_sums show ?thesis by blast
qed

text \<open>A movable zone above the request's zone, with 5 free pages and 9 file pages: both
  figures stay as they are.\<close>

theorem movable_zone_is_skipped:
  "tune_lmk_zone_param (scenario_kernel [zone_movable] False) [zone_movable] 0 100 (Some 100)
     = (100, Some 100)
   \<and> zone_idx zone_movable = 2
   \<and> ZONE_MOVABLE (scenario_kernel [zone_movable] False) = 2
   \<and> zone_page_state zone_movable NR_FREE_PAGES = 5
   \<and> zone_page_state zone_movable NR_FILE_PAGES - zone_page_state zone_movable NR_SHMEM = 9"
  by (simp add: scenario_kernel_def zone_movable_def)

text \<open>
  C7, as the code has it. When the caller is kswapd and the preferred zone is above its
  high watermark plus \<open>SWAP_CLUSTER_MAX\<close> plus the balance gap, the zones' shares are
  taken from the free figure, and from the file figure only if \<open>lmk_fast_run\<close> is set:
  it is with \<open>lmk_fast_run\<close> cleared that the file figure stays as it is. In both cases
  the preferred zone's share (its reserve for \<open>_ZONE\<close> if its watermark is satisfied,
  its free pages if not) is taken from the free figure as well. For any other call the
  zones' shares are taken from both figures, whatever \<open>lmk_fast_run\<close> is.
\<close>

theorem tune_lmk_param_cases:
  "tune_lmk_param K fast_run other_free other_file gfp_mask =
     (let classzone_idx = zone_idx (preferred_zone_of K gfp_mask);
          zones_free = sum_list (map (zone_free_share K classzone_idx) (node_zonelist K gfp_mask));
          zones_file = sum_list (map (zone_file_share K classzone_idx) (node_zonelist K gfp_mask))
      in
        if kswapd_balanced K gfp_mask then
          (other_free - zones_free - preferred_zone_share K gfp_mask,
           if fast_run \<noteq> 0 then other_file - zones_file else other_file)
        else (other_free - zones_free, other_file - zones_file))"
  by (simp add: tune_lmk_param_def kswapd_balanced_def preferred_zone_of_def
                preferred_zone_share_def tune_lmk_zone_param_sums Let_def)

text \<open>kswapd on a balanced normal zone, with a highmem zone of 60 file pages, 10 of them
  shmem: with \<open>lmk_fast_run = 1\<close> the file figure goes from 1000 to 950, with
  \<open>lmk_fast_run = 0\<close> it stays at 1000.\<close>

theorem fast_run_subtracts_file:
  "kswapd_balanced (scenario_kernel [zone_highmem, zone_normal] True) 0
   \<and> tune_lmk_param (scenario_kernel [zone_highmem, zone_normal] True) 1 1000 1000 0 = (985, 950)
   \<and> tune_lmk_param (scenario_kernel [zone_highmem, zone_normal] True) 0 1000 1000 0 = (985, 1000)"
  by (simp add: kswapd_balanced_def preferred_zone_of_def tune_lmk_param_def scenario_kernel_def
                zone_highmem_def zone_normal_def Let_def)

end
